theory Spec2Isabelle
  imports Complex_Main "HOL-Library.Sublist"
begin

section \<open>The typing-speed content script: state\<close>

text \<open>
  The measurement engine is the second script of \<^verbatim>\<open>src/popup/popup.js\<close> (from line 206
  on). Its module-level variables form one mutable run state; every handler of the
  script is embedded as a function from the state before to the state after.

  Times are the values of \<^verbatim>\<open>Date.now()\<close>: integers, in milliseconds. A handler runs to
  completion, and the model reads the clock once per handler invocation: the value is
  the parameter \<open>now\<close>.

  The variable \<^verbatim>\<open>idleTimer\<close> holds the handle of the pending \<^verbatim>\<open>setTimeout\<close>; it is
  non-null exactly while a timeout is pending. The model stores in its place the time
  at which that timeout becomes due, which is what the runtime knows about the handle.
  \<^verbatim>\<open>broadcastTimer\<close> (the handle of \<^verbatim>\<open>setInterval\<close>) is modelled by whether it is set.
  The overlay widget, the listeners and the iframe observer are display and wiring and
  are not part of the run state.
\<close>

type_synonym ms = int

record run =
  isActive :: bool
  startTime :: "ms option"
  stopTime :: "ms option"
  totalChars :: nat
  backspaces :: nat
  pastedChars :: nat
  peakWpm :: int
  accumulatedActiveMs :: int
  burstStart :: "ms option"
  idleTimer :: "ms option"
  broadcastTimer :: bool

text \<open>The values the variables are declared with.\<close>

definition initial :: run where
  "initial = \<lparr> isActive = False, startTime = None, stopTime = None, totalChars = 0,
     backspaces = 0, pastedChars = 0, peakWpm = 0, accumulatedActiveMs = 0,
     burstStart = None, idleTimer = None, broadcastTimer = False \<rparr>"

definition IDLE_THRESHOLD_MS :: int where
  "IDLE_THRESHOLD_MS = 2000"

text \<open>
  JavaScript truthiness of a variable that is \<^verbatim>\<open>null\<close> or a number: \<^verbatim>\<open>!startTime\<close>
  holds for \<^verbatim>\<open>null\<close> and for \<^verbatim>\<open>0\<close>.
\<close>

definition truthy :: "ms option \<Rightarrow> bool" where
  "truthy t = (case t of None \<Rightarrow> False | Some v \<Rightarrow> v \<noteq> 0)"

section \<open>DOM nodes and the page context\<close>

text \<open>
  What the classifier reads of an element: its tag name, the \<^verbatim>\<open>type\<close> property, the
  \<^verbatim>\<open>isContentEditable\<close> property, the \<^verbatim>\<open>role\<close> attribute (\<^verbatim>\<open>getAttribute\<close> gives
  \<^verbatim>\<open>null\<close> when it is absent) and whether \<^verbatim>\<open>closest('[contenteditable="true"]')\<close> finds
  an element. \<open>nodeId\<close> stands for object identity.
\<close>

record element =
  nodeId :: nat
  tagName :: string
  typeProp :: string
  isContentEditable :: bool
  role :: "string option"
  closestEditable :: bool

datatype node = Null | Undefined | NonElement nat | Elem element

definition lowerChar :: "char \<Rightarrow> char" where
  "lowerChar c = (let n = (of_char c :: nat) in
     if 65 \<le> n \<and> n \<le> 90 then char_of (n + 32) else c)"

definition toLowerCase :: "string \<Rightarrow> string" where
  "toLowerCase s = map lowerChar s"

definition TYPING_INPUT_TYPES :: "string list" where
  "TYPING_INPUT_TYPES =
     [''text'', ''password'', ''email'', ''search'', ''url'', ''tel'', ''number'']"

fun isTypingContext :: "node \<Rightarrow> bool" where
  "isTypingContext Null = False"
| "isTypingContext Undefined = False"
| "isTypingContext (NonElement i) = False"
| "isTypingContext (Elem e) =
     (if tagName e = ''TEXTAREA'' then True
      else if tagName e = ''INPUT'' then
        (let type = toLowerCase (if typeProp e = [] then ''text'' else typeProp e)
         in type \<in> set TYPING_INPUT_TYPES)
      else if isContentEditable e then True
      else if role e = Some ''textbox'' \<or> role e = Some ''combobox'' then True
      else if closestEditable e then True
      else False)"

text \<open>
  \<open>sid\<close> is the field \<^verbatim>\<open>id\<close>. \<open>timestamp\<close> is the time whose ISO string the source stores.
\<close>

record session =
  sid :: int
  timestamp :: int
  domain :: string
  duration :: int
  avgWPM :: int
  avgCPM :: int
  se_totalChars :: nat
  se_backspaces :: nat
  se_pastedChars :: nat

datatype get_result = GetFailed | GetOk "session list option"

text \<open>
  The world outside the script at the moment a handler runs: \<^verbatim>\<open>window.location\<close>,
  \<^verbatim>\<open>document.activeElement\<close>, \<^verbatim>\<open>document.body\<close>, \<^verbatim>\<open>document.documentElement\<close>,
  and what \<^verbatim>\<open>chrome.storage.local.get('sessions')\<close> gives: it rejects, or it resolves
  to an object in which the key is absent or holds the stored list.
\<close>

record env =
  hostname :: string
  pathname :: string
  activeElement :: node
  body :: node
  documentElement :: node
  storageGet :: get_result

definition EDITOR_PATHS :: "string list" where
  "EDITOR_PATHS = [''/document/'', ''/spreadsheets/'', ''/presentation/'', ''/forms/'']"

definition nodeTruthy :: "node \<Rightarrow> bool" where
  "nodeTruthy n = (case n of Null \<Rightarrow> False | Undefined \<Rightarrow> False | _ \<Rightarrow> True)"

definition isGoogleDocsActive :: "env \<Rightarrow> bool" where
  "isGoogleDocsActive v =
     (if \<not> suffix ''google.com'' (hostname v) then False
      else if \<not> list_ex (\<lambda>p. sublist p (pathname v)) EDITOR_PATHS then False
      else (let active = activeElement v in
            nodeTruthy active \<and> active \<noteq> body v \<and> active \<noteq> documentElement v))"

section \<open>Events\<close>

record dom_event =
  target :: node

record key_event = dom_event +
  key :: string
  repeat :: bool
  ctrlKey :: bool
  metaKey :: bool

text \<open>
  \<open>clipboardData\<close> is \<open>None\<close> when the event has no \<^verbatim>\<open>clipboardData\<close>; otherwise it is
  the string \<^verbatim>\<open>getData('text')\<close> returns.
\<close>

record paste_event = dom_event +
  clipboardData :: "string option"

definition isShortcut :: "key_event \<Rightarrow> bool" where
  "isShortcut e = (ctrlKey e \<or> metaKey e)"

definition IGNORED_KEYS :: "string list" where
  "IGNORED_KEYS =
     [''Shift'', ''Control'', ''Alt'', ''Meta'', ''CapsLock'', ''Tab'', ''Escape'',
      ''ArrowUp'', ''ArrowDown'', ''ArrowLeft'', ''ArrowRight'',
      ''Home'', ''End'', ''PageUp'', ''PageDown'', ''Insert'', ''PrintScreen'',
      ''ScrollLock'', ''Pause'', ''ContextMenu'', ''Dead'', ''Unidentified'',
      ''F1'', ''F2'', ''F3'', ''F4'', ''F5'', ''F6'', ''F7'', ''F8'', ''F9'', ''F10'',
      ''F11'', ''F12'']"

section \<open>Active-time helpers\<close>

definition onIdle :: "ms \<Rightarrow> run \<Rightarrow> run" where
  "onIdle now s =
     (let s1 = (case burstStart s of
                  Some b \<Rightarrow> s\<lparr> accumulatedActiveMs := accumulatedActiveMs s + (now - b),
                               burstStart := None \<rparr>
                | None \<Rightarrow> s)
      in s1\<lparr> idleTimer := None \<rparr>)"

definition getActiveTimeMs :: "ms \<Rightarrow> run \<Rightarrow> int" where
  "getActiveTimeMs now s =
     (case burstStart s of
        Some b \<Rightarrow> accumulatedActiveMs s + (now - b)
      | None \<Rightarrow> accumulatedActiveMs s)"

definition resetIdleTimer :: "ms \<Rightarrow> run \<Rightarrow> run" where
  "resetIdleTimer now s = s\<lparr> idleTimer := Some (now + IDLE_THRESHOLD_MS) \<rparr>"

section \<open>Key and paste handlers\<close>

text \<open>
  Both handlers resolve the element to classify in the same way (the direct target if
  the classifier accepts it, the focused element otherwise) and give up unless the
  classifier accepts that element or the host-editor heuristic holds. \<open>eligible\<close> is that
  shared test.
\<close>

definition eligible :: "env \<Rightarrow> node \<Rightarrow> bool" where
  "eligible v tgt =
     (let typingTarget = (if isTypingContext tgt then tgt else activeElement v)
      in \<not> (\<not> isTypingContext typingTarget \<and> \<not> isGoogleDocsActive v))"

definition handleKeyDown :: "env \<Rightarrow> ms \<Rightarrow> key_event \<Rightarrow> run \<Rightarrow> run" where
  "handleKeyDown v now e s =
     (if \<not> isActive s then s
      else if repeat e then s
      else if \<not> eligible v (target e) then s
      else if key e \<in> set IGNORED_KEYS then s
      else if isShortcut e then s
      else if key e = ''Backspace'' \<or> key e = ''Delete'' then
        resetIdleTimer now (s\<lparr> backspaces := backspaces s + 1 \<rparr>)
      else if length (key e) = 1 \<or> key e = ''Enter'' then
        (let s1 = (if \<not> truthy (startTime s) then
                     s\<lparr> startTime := Some now, burstStart := Some now \<rparr>
                   else if burstStart s = None then s\<lparr> burstStart := Some now \<rparr>
                   else s)
         in resetIdleTimer now (s1\<lparr> totalChars := totalChars s1 + 1 \<rparr>))
      else s)"

definition handlePaste :: "env \<Rightarrow> ms \<Rightarrow> paste_event \<Rightarrow> run \<Rightarrow> run" where
  "handlePaste v now e s =
     (if \<not> isActive s then s
      else if \<not> eligible v (target e) then s
      else (let text = (case clipboardData e of Some t \<Rightarrow> t | None \<Rightarrow> [])
            in if length text > 0 then
                 resetIdleTimer now (s\<lparr> pastedChars := pastedChars s + length text \<rparr>)
               else s))"

section \<open>JavaScript numbers\<close>

text \<open>
  A JavaScript number is an IEEE 754 binary64 value. The counters and the clock values of
  the script are integers far below \<open>2 ^ 53\<close>, which binary64 holds exactly, so they are
  modelled as \<open>nat\<close> and \<open>int\<close>. A quotient is rounded: \<^verbatim>\<open>a / b\<close> is the binary64 value
  nearest to the exact quotient, a tie going to the even significand. \<open>fl\<close> is that
  rounding on the rationals: with \<open>e\<close> the binary exponent of \<open>\<bar>x\<bar>\<close>, the quotient of
  \<open>\<bar>x\<bar>\<close> by \<open>2 powi (e - 52)\<close> lies between \<open>2 ^ 52\<close> and \<open>2 ^ 53\<close> and is rounded to an
  integer, the 53-bit significand. The exponent is not bounded in the model: the
  quotients the script forms, of integers below \<open>2 ^ 53\<close> by 5, 60000 and each other, are
  within the normal range of binary64, where no overflow or gradual underflow occurs.
\<close>

function exp_up :: "rat \<Rightarrow> int" where
  "exp_up x = (if x < 2 then 0 else exp_up (x / 2) + 1)"
  by pat_completeness auto
termination
proof (relation "measure (\<lambda>x. nat \<lfloor>x\<rfloor>)")
  show "wf (measure (\<lambda>x::rat. nat \<lfloor>x\<rfloor>))"
    by simp
next
  fix x :: rat
  assume "\<not> x < 2"
  then have "1 \<le> \<lfloor>x\<rfloor>"
    by (simp add: le_floor_iff)
  then have "1 \<le> (of_int \<lfloor>x\<rfloor> :: rat)"
    by linarith
  moreover have "x - 1 < of_int \<lfloor>x\<rfloor>"
    by linarith
  ultimately have "x / 2 < of_int \<lfloor>x\<rfloor>"
    by linarith
  then have "\<lfloor>x / 2\<rfloor> < \<lfloor>x\<rfloor>"
    by (simp add: floor_less_iff)
  with \<open>1 \<le> \<lfloor>x\<rfloor>\<close> show "(x / 2, x) \<in> measure (\<lambda>x. nat \<lfloor>x\<rfloor>)"
    by simp
qed

function exp_down :: "rat \<Rightarrow> int" where
  "exp_down x = (if 1 \<le> x \<or> x \<le> 0 then 0 else exp_down (2 * x) - 1)"
  by pat_completeness auto
termination
proof (relation "measure (\<lambda>x. nat \<lfloor>1 / x\<rfloor>)")
  show "wf (measure (\<lambda>x::rat. nat \<lfloor>1 / x\<rfloor>))"
    by simp
next
  fix x :: rat
  assume "\<not> (1 \<le> x \<or> x \<le> 0)"
  then have "0 < x" and "x < 1"
    by simp_all
  define y where "y = 1 / x"
  have half: "1 / (2 * x) = y / 2"
    by (simp add: y_def)
  have "1 \<le> y"
    using \<open>0 < x\<close> \<open>x < 1\<close> by (simp add: y_def)
  then have "1 \<le> \<lfloor>y\<rfloor>"
    by (simp add: le_floor_iff)
  then have "1 \<le> (of_int \<lfloor>y\<rfloor> :: rat)"
    by linarith
  moreover have "y - 1 < of_int \<lfloor>y\<rfloor>"
    by linarith
  ultimately have "y / 2 < of_int \<lfloor>y\<rfloor>"
    by linarith
  then have "\<lfloor>y / 2\<rfloor> < \<lfloor>y\<rfloor>"
    by (simp add: floor_less_iff)
  with \<open>1 \<le> \<lfloor>y\<rfloor>\<close> have "nat \<lfloor>y / 2\<rfloor> < nat \<lfloor>y\<rfloor>"
    by simp
  then show "(2 * x, x) \<in> measure (\<lambda>x. nat \<lfloor>1 / x\<rfloor>)"
    by (simp only: in_measure half y_def [symmetric])
qed

declare exp_up.simps [simp del] exp_down.simps [simp del]

text \<open>The binary exponent of a positive rational: \<open>2 powi e \<le> x < 2 powi (e + 1)\<close>.\<close>

definition exponent :: "rat \<Rightarrow> int" where
  "exponent x = (if 1 \<le> x then exp_up x else exp_down x)"

definition roundTiesToEven :: "rat \<Rightarrow> int" where
  "roundTiesToEven m =
     (let f = \<lfloor>m\<rfloor>; r = m - of_int f in
      if r < 1 / 2 then f else if 1 / 2 < r then f + 1 else if even f then f else f + 1)"

definition fl :: "rat \<Rightarrow> rat" where
  "fl x =
     (if x = 0 then 0
      else (let a = \<bar>x\<bar>; u = 2 powi (exponent a - 52)
            in sgn x * of_int (roundTiesToEven (a / u)) * u))"

text \<open>The operator \<^verbatim>\<open>/\<close> on two numbers, the divisor not zero.\<close>

definition jsDiv :: "rat \<Rightarrow> rat \<Rightarrow> rat" where
  "jsDiv a b = fl (a / b)"

section \<open>Stats snapshot\<close>

text \<open>
  The two speeds are computed with the divisions of the source, each rounded to
  binary64. \<^verbatim>\<open>Math.round\<close> gives the nearest integer of its argument, a tie going
  upwards, as \<^const>\<open>round\<close> does. \<^verbatim>\<open>Math.floor\<close> of an integer divided by 1000 is
  \<open>div\<close>: below \<open>2 ^ 53\<close> the rounding of the quotient does not reach the next integer.
\<close>

record stats =
  st_isActive :: bool
  wpm :: int
  cpm :: int
  st_totalChars :: nat
  st_backspaces :: nat
  st_pastedChars :: nat
  elapsedTime :: int
  activeTime :: int
  st_peakWpm :: int
  hasData :: bool

definition getStats :: "ms \<Rightarrow> run \<Rightarrow> stats \<times> run" where
  "getStats now s =
     (let activeMs = getActiveTimeMs now s;
          activeMins = jsDiv (of_int activeMs) 60000;
          w = (if activeMins > 0
               then round (jsDiv (jsDiv (of_nat (totalChars s)) 5) activeMins) else 0);
          c = (if activeMins > 0
               then round (jsDiv (of_nat (totalChars s)) activeMins) else 0);
          s1 = (if w > peakWpm s then s\<lparr> peakWpm := w \<rparr> else s);
          wallElapsed =
            (if truthy (startTime s1) then
               (let end = (if isActive s1 then now
                           else (case stopTime s1 of Some t \<Rightarrow> t | None \<Rightarrow> now))
                in (end - the (startTime s1)) div 1000)
             else 0)
      in (\<lparr> st_isActive = isActive s1, wpm = w, cpm = c,
            st_totalChars = totalChars s1, st_backspaces = backspaces s1,
            st_pastedChars = pastedChars s1, elapsedTime = wallElapsed,
            activeTime = activeMs div 1000, st_peakWpm = peakWpm s1,
            hasData = (startTime s1 \<noteq> None) \<rparr>, s1))"

section \<open>Session persistence\<close>

text \<open>
  The three ways \<^verbatim>\<open>saveSession\<close> ends: the early return, the \<^verbatim>\<open>catch\<close> branch (the
  session was built, nothing is written), and the list handed to
  \<^verbatim>\<open>chrome.storage.local.set\<close>.
\<close>

datatype save_result = Skipped | Failed session | Written session "session list"

definition saveSession :: "env \<Rightarrow> ms \<Rightarrow> stats \<Rightarrow> save_result" where
  "saveSession v now st =
     (if st_totalChars st = 0 then Skipped
      else
        (let session = \<lparr> sid = now, timestamp = now,
               domain = (if hostname v = [] then ''unknown'' else hostname v),
               duration = activeTime st, avgWPM = wpm st, avgCPM = cpm st,
               se_totalChars = st_totalChars st, se_backspaces = st_backspaces st,
               se_pastedChars = st_pastedChars st \<rparr>
         in case storageGet v of
              GetFailed \<Rightarrow> Failed session
            | GetOk stored \<Rightarrow>
                (let sessions = (case stored of None \<Rightarrow> [] | Some l \<Rightarrow> l);
                     sessions1 = session # sessions;
                     sessions2 = (if length sessions1 > 10 then take 10 sessions1
                                  else sessions1)
                 in Written session sessions2)))"

section \<open>Commands from the popup\<close>

definition start :: "ms \<Rightarrow> run \<Rightarrow> stats \<times> run" where
  "start now s =
     (let s1 = s\<lparr> isActive := True, startTime := None, stopTime := None,
                 totalChars := 0, backspaces := 0, pastedChars := 0, peakWpm := 0,
                 accumulatedActiveMs := 0, burstStart := None, idleTimer := None \<rparr>;
          s2 = s1\<lparr> broadcastTimer := True \<rparr>
      in getStats now s2)"

definition stop :: "env \<Rightarrow> ms \<Rightarrow> run \<Rightarrow> stats \<times> save_result \<times> run" where
  "stop v now s =
     (let s1 = s\<lparr> isActive := False,
                 stopTime := (if truthy (startTime s) then Some now else None) \<rparr>;
          s2 = s1\<lparr> idleTimer := None \<rparr>;
          s3 = (case burstStart s2 of
                  Some b \<Rightarrow> s2\<lparr> accumulatedActiveMs := accumulatedActiveMs s2 + (now - b),
                                burstStart := None \<rparr>
                | None \<Rightarrow> s2);
          s4 = s3\<lparr> broadcastTimer := False \<rparr>;
          (finalStats, s5) = getStats now s4
      in (finalStats, saveSession v now finalStats, s5))"

section \<open>The event loop\<close>

text \<open>
  Everything that can run a handler: a key or paste event, the idle timeout, the
  broadcast interval, and the three commands of the message listener. The runtime calls
  the idle callback only while its timeout is pending and due, and the broadcast only
  while the interval is set. A command with another action falls through the
  \<^verbatim>\<open>switch\<close>.
\<close>

datatype action = Start | Stop | GetStats | OtherAction

datatype event =
    KeyDown key_event
  | Paste paste_event
  | IdleTimeout
  | BroadcastTick
  | Message action

definition dispatch :: "env \<Rightarrow> ms \<Rightarrow> event \<Rightarrow> run \<Rightarrow> run" where
  "dispatch v now ev s =
     (case ev of
        KeyDown e \<Rightarrow> handleKeyDown v now e s
      | Paste e \<Rightarrow> handlePaste v now e s
      | IdleTimeout \<Rightarrow>
          (case idleTimer s of
             Some due \<Rightarrow> if due \<le> now then onIdle now s else s
           | None \<Rightarrow> s)
      | BroadcastTick \<Rightarrow> if broadcastTimer s then snd (getStats now s) else s
      | Message a \<Rightarrow>
          (case a of
             Start \<Rightarrow> snd (start now s)
           | Stop \<Rightarrow> snd (snd (stop v now s))
           | GetStats \<Rightarrow> snd (getStats now s)
           | OtherAction \<Rightarrow> s))"

text \<open>A trace is a list of events, each with the page context and the clock it runs at.\<close>

fun exec :: "(env \<times> ms \<times> event) list \<Rightarrow> run \<Rightarrow> run" where
  "exec [] s = s"
| "exec ((v, now, ev) # rest) s = exec rest (dispatch v now ev s)"

section \<open>Vocabulary of the properties\<close>

text \<open>
  The three kinds of input the handlers act on, each the conjunction of the guards the
  event passes on its way through the handler: a countable keystroke (a single
  character or Enter), a deletion, and a paste with text.
\<close>

definition typed :: "env \<Rightarrow> key_event \<Rightarrow> bool" where
  "typed v e =
     (\<not> repeat e \<and> eligible v (target e) \<and> key e \<notin> set IGNORED_KEYS \<and> \<not> isShortcut e
      \<and> key e \<noteq> ''Backspace'' \<and> key e \<noteq> ''Delete''
      \<and> (length (key e) = 1 \<or> key e = ''Enter''))"

definition deleted :: "env \<Rightarrow> key_event \<Rightarrow> bool" where
  "deleted v e =
     (\<not> repeat e \<and> eligible v (target e) \<and> \<not> isShortcut e
      \<and> (key e = ''Backspace'' \<or> key e = ''Delete''))"

definition pasted :: "env \<Rightarrow> paste_event \<Rightarrow> bool" where
  "pasted v e =
     (eligible v (target e) \<and> clipboardData e \<noteq> None \<and> clipboardData e \<noteq> Some [])"

text \<open>
  The script opens a burst only in the branch that also sets the start time, so an open
  burst comes with a start time that JavaScript treats as set.
\<close>

definition run_inv :: "run \<Rightarrow> bool" where
  "run_inv s = (burstStart s = None \<or> truthy (startTime s))"

text \<open>
  The classifier as the specification words it: a text area, an input of an allowed
  type, a content-editable element or a descendant of one, or an element with role
  textbox or combobox.
\<close>

definition isTypingContext_spec :: "node \<Rightarrow> bool" where
  "isTypingContext_spec n =
     (case n of
        Elem e \<Rightarrow>
          tagName e = ''TEXTAREA''
          \<or> (tagName e = ''INPUT''
              \<and> toLowerCase (if typeProp e = [] then ''text'' else typeProp e)
                  \<in> set TYPING_INPUT_TYPES)
          \<or> isContentEditable e \<or> closestEditable e
          \<or> role e = Some ''textbox'' \<or> role e = Some ''combobox''
      | _ \<Rightarrow> False)"

text \<open>An input element whose type is outside the allow-list.\<close>

definition disallowedInput :: "node \<Rightarrow> bool" where
  "disallowedInput n =
     (case n of
        Elem e \<Rightarrow>
          tagName e = ''INPUT''
          \<and> toLowerCase (if typeProp e = [] then ''text'' else typeProp e)
                \<notin> set TYPING_INPUT_TYPES
      | _ \<Rightarrow> False)"

text \<open>
  A burst of keystrokes as the event loop sees it: before each key event is delivered,
  an idle timeout that is due gets its turn. Successive keystrokes of a burst are less
  than the idle threshold apart.
\<close>

definition burst :: "env \<Rightarrow> (ms \<times> key_event) list \<Rightarrow> (env \<times> ms \<times> event) list" where
  "burst v ks = concat (map (\<lambda>(t, e). [(v, t, IdleTimeout), (v, t, KeyDown e)]) ks)"

fun spaced :: "ms list \<Rightarrow> bool" where
  "spaced (a # b # rest) = (b - a < IDLE_THRESHOLD_MS \<and> spaced (b # rest))"
| "spaced _ = True"

text \<open>
  Two shapes of an active run: in a burst that started at \<open>b\<close>, with \<open>acc\<close> milliseconds
  accumulated before it and the last input at \<open>l\<close>; and paused, with no burst open and
  no idle timeout pending.
\<close>

definition in_burst :: "ms \<Rightarrow> int \<Rightarrow> ms \<Rightarrow> run \<Rightarrow> bool" where
  "in_burst b acc l s =
     (isActive s \<and> truthy (startTime s) \<and> burstStart s = Some b
      \<and> accumulatedActiveMs s = acc \<and> idleTimer s = Some (l + IDLE_THRESHOLD_MS))"

definition paused :: "int \<Rightarrow> run \<Rightarrow> bool" where
  "paused acc s =
     (isActive s \<and> truthy (startTime s) \<and> burstStart s = None
      \<and> accumulatedActiveMs s = acc \<and> idleTimer s = None)"

text \<open>
  The history is newest first when the identifiers (creation times) do not increase
  along the list.
\<close>

definition newest_first :: "session list \<Rightarrow> bool" where
  "newest_first l = sorted_wrt (\<lambda>a b. sid b \<le> sid a) l"

text \<open>A session carries the figures of a snapshot.\<close>

definition derived_from :: "stats \<Rightarrow> session \<Rightarrow> bool" where
  "derived_from st se =
     (duration se = activeTime st \<and> avgWPM se = wpm st \<and> avgCPM se = cpm st
      \<and> se_totalChars se = st_totalChars st \<and> se_backspaces se = st_backspaces st
      \<and> se_pastedChars se = st_pastedChars st)"

section \<open>Sample page, elements and events\<close>

definition bodyEl :: node where
  "bodyEl = Elem \<lparr> nodeId = 1, tagName = ''BODY'', typeProp = [],
     isContentEditable = False, role = None, closestEditable = False \<rparr>"

definition htmlEl :: node where
  "htmlEl = Elem \<lparr> nodeId = 0, tagName = ''HTML'', typeProp = [],
     isContentEditable = False, role = None, closestEditable = False \<rparr>"

definition textArea :: node where
  "textArea = Elem \<lparr> nodeId = 2, tagName = ''TEXTAREA'', typeProp = ''textarea'',
     isContentEditable = False, role = None, closestEditable = False \<rparr>"

text \<open>An input of type checkbox that declares the role textbox.\<close>

definition checkboxTextbox :: node where
  "checkboxTextbox = Elem \<lparr> nodeId = 3, tagName = ''INPUT'', typeProp = ''checkbox'',
     isContentEditable = False, role = Some ''textbox'', closestEditable = False \<rparr>"

text \<open>
  A checkbox inside a rich-text editor: it inherits \<^verbatim>\<open>isContentEditable\<close> and has an
  ancestor with \<^verbatim>\<open>contenteditable="true"\<close>.
\<close>

definition checkboxInEditor :: node where
  "checkboxInEditor = Elem \<lparr> nodeId = 4, tagName = ''INPUT'', typeProp = ''checkbox'',
     isContentEditable = True, role = None, closestEditable = True \<rparr>"

definition page :: env where
  "page = \<lparr> hostname = ''example.com'', pathname = ''/'', activeElement = textArea,
     body = bodyEl, documentElement = htmlEl, storageGet = GetOk None \<rparr>"

definition keyA :: key_event where
  "keyA = \<lparr> target = textArea, key = ''a'', repeat = False, ctrlKey = False,
     metaKey = False \<rparr>"

definition keyBackspace :: key_event where
  "keyBackspace = \<lparr> target = textArea, key = ''Backspace'', repeat = False,
     ctrlKey = False, metaKey = False \<rparr>"

definition pasteEmpty :: paste_event where
  "pasteEmpty = \<lparr> target = textArea, clipboardData = Some [] \<rparr>"

definition pasteHello :: paste_event where
  "pasteHello = \<lparr> target = textArea, clipboardData = Some ''hello'' \<rparr>"

text \<open>A run that was started at 500 ms and has seen one keystroke at 1000 ms.\<close>

definition oneKey :: run where
  "oneKey = exec [(page, 500, Message Start), (page, 1000, KeyDown keyA)] initial"

text \<open>
  The same run after its idle timeout has fired, at 3000 ms: no burst is open, the run
  is still active.
\<close>

definition oneKeyIdle :: run where
  "oneKeyIdle = exec [(page, 3000, IdleTimeout)] oneKey"

text \<open>
  Two bursts of two keystrokes, 500 ms long each, with 4500 ms between them; the idle
  timeout fires 2000 ms after the first burst's last keystroke.
\<close>

definition burstOne :: "(ms \<times> key_event) list" where
  "burstOne = [(1000, keyA), (1500, keyA)]"

definition burstTwo :: "(ms \<times> key_event) list" where
  "burstTwo = [(6000, keyA), (6500, keyA)]"

definition twoBursts :: "(env \<times> ms \<times> event) list" where
  "twoBursts =
     (page, 500, Message Start)
       # burst page burstOne @ (page, 3500, IdleTimeout) # burst page burstTwo"

text \<open>
  Twenty-five keystrokes, 100 ms apart, the first at 1000 ms; the snapshot is taken three
  seconds after the first.
\<close>

definition typing25 :: "(env \<times> ms \<times> event) list" where
  "typing25 =
     (page, 500, Message Start)
       # map (\<lambda>i. (page, 1000 + 100 * int i, KeyDown keyA)) [0..<25]"

text \<open>Three keystrokes, at 1000, 1300 and 1600 ms.\<close>

definition threeKeys :: run where
  "threeKeys =
     exec [(page, 500, Message Start), (page, 1000, KeyDown keyA),
           (page, 1300, KeyDown keyA), (page, 1600, KeyDown keyA)] initial"



text \<open>A stored history of twelve sessions, with identifiers 12 down to 1.\<close>

definition oldSession :: "nat \<Rightarrow> session" where
  "oldSession i = \<lparr> sid = int i, timestamp = int i, domain = ''example.com'',
     duration = 1, avgWPM = 40, avgCPM = 200, se_totalChars = 10, se_backspaces = 0,
     se_pastedChars = 0 \<rparr>"

definition history12 :: "session list" where
  "history12 = map oldSession (rev [1..<13])"

text \<open>The page with the twelve sessions in storage.\<close>

definition pageWithHistory :: env where
  "pageWithHistory = page\<lparr> storageGet := GetOk (Some history12) \<rparr>"

text \<open>
  The twenty-five keystrokes followed by two snapshots, a query at 4000 ms and a
  broadcast at 5000 ms: the speed is lower at the second than at the first.
\<close>

definition snapshots25 :: "(env \<times> ms \<times> event) list" where
  "snapshots25 =
     map (\<lambda>i. (page, 1000 + 100 * int i, KeyDown keyA)) [0..<25]
       @ [(page, 4000, Message GetStats), (page, 5000, BroadcastTick)]"

text \<open>A page on which nothing editable has the focus, and a key event on its body.\<close>

definition pageUnfocused :: env where
  "pageUnfocused = page\<lparr> activeElement := bodyEl \<rparr>"

definition keyOnBody :: key_event where
  "keyOnBody = keyA\<lparr> target := bodyEl \<rparr>"

section \<open>Basic facts about the handlers\<close>

subsection \<open>The sample runs\<close>

lemma eligible_textArea: "eligible page textArea"
  by (simp add: eligible_def textArea_def)

lemma oneKey_value:
  "oneKey = \<lparr> isActive = True, startTime = Some 1000, stopTime = None, totalChars = 1,
     backspaces = 0, pastedChars = 0, peakWpm = 0, accumulatedActiveMs = 0,
     burstStart = Some 1000, idleTimer = Some 3000, broadcastTimer = True \<rparr>"
  by code_simp

lemma oneKeyIdle_value:
  "oneKeyIdle = \<lparr> isActive = True, startTime = Some 1000, stopTime = None, totalChars = 1,
     backspaces = 0, pastedChars = 0, peakWpm = 0, accumulatedActiveMs = 2000,
     burstStart = None, idleTimer = None, broadcastTimer = True \<rparr>"
  by code_simp

lemma threeKeys_value:
  "threeKeys = \<lparr> isActive = True, startTime = Some 1000, stopTime = None, totalChars = 3,
     backspaces = 0, pastedChars = 0, peakWpm = 0, accumulatedActiveMs = 0,
     burstStart = Some 1000, idleTimer = Some 3600, broadcastTimer = True \<rparr>"
  by code_simp

subsection \<open>Snapshots, start and stop\<close>

text \<open>A snapshot changes nothing of the run but the peak.\<close>

lemma getStats_frame:
  "isActive (snd (getStats now s)) = isActive s"
  "startTime (snd (getStats now s)) = startTime s"
  "stopTime (snd (getStats now s)) = stopTime s"
  "totalChars (snd (getStats now s)) = totalChars s"
  "backspaces (snd (getStats now s)) = backspaces s"
  "pastedChars (snd (getStats now s)) = pastedChars s"
  "accumulatedActiveMs (snd (getStats now s)) = accumulatedActiveMs s"
  "burstStart (snd (getStats now s)) = burstStart s"
  "idleTimer (snd (getStats now s)) = idleTimer s"
  "broadcastTimer (snd (getStats now s)) = broadcastTimer s"
  by (simp_all add: getStats_def Let_def)

lemma getStats_fresh:
  "accumulatedActiveMs s = 0 \<Longrightarrow> burstStart s = None \<Longrightarrow> peakWpm s = 0 \<Longrightarrow>
   snd (getStats now s) = s"
  by (simp add: getStats_def getActiveTimeMs_def Let_def jsDiv_def fl_def)

lemma onIdle_frame:
  "isActive (onIdle now s) = isActive s"
  "startTime (onIdle now s) = startTime s"
  "stopTime (onIdle now s) = stopTime s"
  "totalChars (onIdle now s) = totalChars s"
  "backspaces (onIdle now s) = backspaces s"
  "pastedChars (onIdle now s) = pastedChars s"
  "peakWpm (onIdle now s) = peakWpm s"
  "broadcastTimer (onIdle now s) = broadcastTimer s"
  "burstStart (onIdle now s) = None"
  "idleTimer (onIdle now s) = None"
  "accumulatedActiveMs (onIdle now s) = getActiveTimeMs now s"
  by (simp_all add: onIdle_def getActiveTimeMs_def Let_def split: option.splits)

lemma start_state:
  "snd (start now s) = initial\<lparr> isActive := True, broadcastTimer := True \<rparr>"
  by (simp add: start_def Let_def getStats_fresh initial_def)

text \<open>
  The stop command closes the burst with the statements of \<open>onIdle\<close>, then takes the
  final snapshot and hands it to \<open>saveSession\<close>.
\<close>

lemma stop_eq:
  "stop v now s =
     (let s4 = (onIdle now (s\<lparr> isActive := False,
                  stopTime := (if truthy (startTime s) then Some now else None) \<rparr>))
                \<lparr> broadcastTimer := False \<rparr>
      in (fst (getStats now s4), saveSession v now (fst (getStats now s4)),
          snd (getStats now s4)))"
  by (cases s) (simp add: stop_def onIdle_def Let_def split_beta split: option.splits)

subsection \<open>The history and the session\<close>

lemma typing25_stats:
  "fst (getStats 4000 (exec typing25 initial)) =
     \<lparr> st_isActive = True, wpm = 100, cpm = 500, st_totalChars = 25,
       st_backspaces = 0, st_pastedChars = 0, elapsedTime = 3, activeTime = 3,
       st_peakWpm = 100, hasData = True \<rparr>"
  by code_simp

lemma newest_first_Cons:
  "newest_first (x # l) = ((\<forall>y\<in>set l. sid y \<le> sid x) \<and> newest_first l)"
  by (simp add: newest_first_def)

lemma newest_first_take: "newest_first l \<Longrightarrow> newest_first (take n l)"
  by (simp add: newest_first_def)

lemma history12_value: "history12 = map oldSession [12, 11, 10, 9, 8, 7, 6, 5, 4, 3, 2, 1]"
  by code_simp

lemma getStats_counters:
  "st_totalChars (fst (getStats now s)) = totalChars s"
  "st_backspaces (fst (getStats now s)) = backspaces s"
  "st_pastedChars (fst (getStats now s)) = pastedChars s"
  "st_isActive (fst (getStats now s)) = isActive s"
  "activeTime (fst (getStats now s)) = getActiveTimeMs now s div 1000"
  by (simp_all add: getStats_def Let_def)

lemma saveSession_Skipped: "(saveSession v now st = Skipped) = (st_totalChars st = 0)"
  by (simp add: saveSession_def Let_def split: get_result.splits)

lemma saveSession_derived:
  "case saveSession v now st of
     Skipped \<Rightarrow> True
   | Failed se \<Rightarrow> derived_from st se
   | Written se ws \<Rightarrow> derived_from st se \<and> hd ws = se"
  by (simp add: saveSession_def Let_def derived_from_def split: get_result.splits)

lemma typing25_state:
  "exec typing25 initial = \<lparr> isActive = True, startTime = Some 1000, stopTime = None,
     totalChars = 25, backspaces = 0, pastedChars = 0, peakWpm = 0,
     accumulatedActiveMs = 0, burstStart = Some 1000, idleTimer = Some 5400,
     broadcastTimer = True \<rparr>"
  by code_simp

subsection \<open>The speeds\<close>

text \<open>The exponent found by halving or doubling is the binary exponent.\<close>

lemma exp_up_bounds: "1 \<le> x \<Longrightarrow> 2 powi exp_up x \<le> x \<and> x < 2 powi (exp_up x + 1)"
proof (induction x rule: exp_up.induct)
  case (1 x)
  show ?case
  proof (cases "x < 2")
    case True
    then have "exp_up x = 0"
      by (subst exp_up.simps) simp
    with True "1.prems" show ?thesis
      by simp
  next
    case False
    then have "1 \<le> x / 2"
      by simp
    with "1.IH" False have ih: "2 powi exp_up (x / 2) \<le> x / 2"
        "x / 2 < 2 powi (exp_up (x / 2) + 1)"
      by simp_all
    have e: "exp_up x = exp_up (x / 2) + 1"
      using False by (subst exp_up.simps) simp
    show ?thesis
      using ih by (simp add: e power_int_add)
  qed
qed

lemma exp_down_bounds:
  "0 < x \<Longrightarrow> x < 1 \<Longrightarrow> 2 powi exp_down x \<le> x \<and> x < 2 powi (exp_down x + 1)"
proof (induction x rule: exp_down.induct)
  case (1 x)
  have e: "exp_down x = exp_down (2 * x) - 1"
    using "1.prems" by (subst exp_down.simps) simp
  show ?case
  proof (cases "2 * x < 1")
    case True
    with "1.IH" "1.prems" have ih: "2 powi exp_down (2 * x) \<le> 2 * x"
        "2 * x < 2 powi (exp_down (2 * x) + 1)"
      by simp_all
    show ?thesis
      using ih by (simp add: e power_int_add power_int_diff)
  next
    case False
    then have "exp_down (2 * x) = 0"
      by (subst exp_down.simps) simp
    with False "1.prems" show ?thesis
      by (simp add: e)
  qed
qed

lemma exponent_bounds:
  "0 < x \<Longrightarrow> 2 powi exponent x \<le> x \<and> x < 2 powi (exponent x + 1)"
  by (simp add: exponent_def exp_up_bounds exp_down_bounds)

text \<open>Rounding keeps the sign: the significand of a number that is not zero is positive.\<close>

lemma roundTiesToEven_ge_floor: "\<lfloor>m\<rfloor> \<le> roundTiesToEven m"
  by (simp add: roundTiesToEven_def Let_def)

lemma significand_pos:
  assumes "0 < a"
  shows "0 < roundTiesToEven (a / 2 powi (exponent a - 52))"
proof -
  define u :: rat where "u = 2 powi (exponent a - 52)"
  have u_pos: "0 < u"
    by (simp add: u_def)
  have "2 powi exponent a = 2 powi 52 * u"
    by (simp add: u_def power_int_diff)
  moreover have "2 powi exponent a \<le> a"
    using assms by (simp add: exponent_bounds)
  ultimately have "2 powi 52 * u \<le> a"
    by simp
  then have "2 powi 52 \<le> a / u"
    using u_pos by (simp add: pos_le_divide_eq)
  moreover have "(1 :: rat) \<le> 2 powi 52"
    by simp
  ultimately have "1 \<le> a / u"
    by linarith
  then have "1 \<le> \<lfloor>a / u\<rfloor>"
    by (simp add: le_floor_iff)
  with roundTiesToEven_ge_floor [of "a / u"] show ?thesis
    unfolding u_def by linarith
qed

lemma fl_pos_iff: "(0 < fl x) = (0 < x)"
proof (cases "x = 0")
  case True
  then show ?thesis
    by (simp add: fl_def)
next
  case False
  then have "0 < \<bar>x\<bar>"
    by simp
  then have sig: "0 < (of_int (roundTiesToEven (\<bar>x\<bar> / 2 powi (exponent \<bar>x\<bar> - 52))) :: rat)"
    using significand_pos [of "\<bar>x\<bar>"] by simp
  have unit: "0 < (2 powi (exponent \<bar>x\<bar> - 52) :: rat)"
    by simp
  show ?thesis
  proof (cases "0 < x")
    case True
    with sig unit False show ?thesis
      by (simp add: fl_def Let_def)
  next
    case neg: False
    with False have "x < 0"
      by simp
    with sig unit False have "fl x < 0"
      by (simp add: fl_def Let_def mult_neg_pos)
    with \<open>x < 0\<close> show ?thesis
      by simp
  qed
qed

lemma activeMins_pos_iff: "(0 < jsDiv (of_int ms) 60000) = (0 < ms)"
  by (simp add: jsDiv_def fl_pos_iff)

lemma getStats_wpm:
  "wpm (fst (getStats now s)) =
     (if 0 < jsDiv (of_int (getActiveTimeMs now s)) 60000
      then round (jsDiv (jsDiv (of_nat (totalChars s)) 5)
                    (jsDiv (of_int (getActiveTimeMs now s)) 60000))
      else 0)"
  by (simp add: getStats_def Let_def)

lemma getStats_cpm:
  "cpm (fst (getStats now s)) =
     (if 0 < jsDiv (of_int (getActiveTimeMs now s)) 60000
      then round (jsDiv (of_nat (totalChars s)) (jsDiv (of_int (getActiveTimeMs now s)) 60000))
      else 0)"
  by (simp add: getStats_def Let_def)

text \<open>
  Two computations: five words in a twentieth of a minute, and a quotient that is
  exactly 22.5 in the rationals and just below it in binary64.
\<close>

lemma speeds_25_3000:
  "round (jsDiv (jsDiv (of_nat 25) 5) (jsDiv (of_int 3000) 60000)) = 100"
  "round (jsDiv (of_nat 25) (jsDiv (of_int 3000) 60000)) = 500"
  by code_simp+

lemma speeds_3_1600:
  "round (jsDiv (jsDiv (of_nat 3) 5) (jsDiv (of_int 1600) 60000)) = 22"
  "round (jsDiv (of_nat 3) (jsDiv (of_int 1600) 60000)) = 112"
  by code_simp+

text \<open>Another such quotient, 37.5 in the rationals, and the binary64 value of a tenth.\<close>

lemma speeds_7_2240:
  "round (jsDiv (jsDiv (of_nat 7) 5) (jsDiv (of_int 2240) 60000)) = 37"
  "round (jsDiv (of_nat 7) (jsDiv (of_int 2240) 60000)) = 187"
  by code_simp+

lemma fl_tenth: "fl (1 / 10) = 3602879701896397 / 36028797018963968"
  by code_simp

subsection \<open>The peak\<close>

lemma getStats_peak:
  "peakWpm (snd (getStats now s)) = max (peakWpm s) (wpm (fst (getStats now s)))"
  "st_peakWpm (fst (getStats now s)) = max (peakWpm s) (wpm (fst (getStats now s)))"
  by (simp_all add: getStats_def Let_def max_def)

lemma handleKeyDown_peak: "peakWpm (handleKeyDown v now e s) = peakWpm s"
  by (simp add: handleKeyDown_def resetIdleTimer_def Let_def)

lemma handlePaste_peak: "peakWpm (handlePaste v now e s) = peakWpm s"
  by (simp add: handlePaste_def resetIdleTimer_def Let_def)

lemma stop_peak: "peakWpm s \<le> peakWpm (snd (snd (stop v now s)))"
  by (simp add: stop_eq Let_def getStats_peak onIdle_frame)

lemma dispatch_peak:
  assumes "ev \<noteq> Message Start"
  shows "peakWpm s \<le> peakWpm (dispatch v now ev s)"
proof (cases ev)
  case (KeyDown e)
  then show ?thesis by (simp add: dispatch_def handleKeyDown_peak)
next
  case (Paste e)
  then show ?thesis by (simp add: dispatch_def handlePaste_peak)
next
  case IdleTimeout
  then show ?thesis by (simp add: dispatch_def onIdle_frame split: option.splits)
next
  case BroadcastTick
  then show ?thesis by (simp add: dispatch_def getStats_peak)
next
  case (Message a)
  with assms show ?thesis
    by (cases a) (simp_all add: dispatch_def getStats_peak stop_peak)
qed

lemma exec_peak:
  "list_all (\<lambda>(v, t, ev). ev \<noteq> Message Start) tr \<Longrightarrow> peakWpm s \<le> peakWpm (exec tr s)"
proof (induction tr arbitrary: s)
  case Nil
  then show ?case by simp
next
  case (Cons x tr)
  obtain v t ev where x: "x = (v, t, ev)"
    by (cases x) auto
  from Cons.prems x have "ev \<noteq> Message Start" and rest: "list_all (\<lambda>(v, t, ev). ev \<noteq> Message Start) tr"
    by simp_all
  then have "peakWpm s \<le> peakWpm (dispatch v t ev s)"
    by (simp add: dispatch_peak)
  also have "\<dots> \<le> peakWpm (exec tr (dispatch v t ev s))"
    by (rule Cons.IH [OF rest])
  finally show ?case by (simp add: x)
qed

lemma snapshots25_no_start: "list_all (\<lambda>(v, t, ev). ev \<noteq> Message Start) snapshots25"
  by code_simp

lemma snapshots25_peak: 
  "peakWpm (exec snapshots25 (snd (start 500 initial))) = 100"
  by code_simp

lemma snapshots25_wpm: 
  "wpm (fst (getStats 5000 (exec snapshots25 (snd (start 500 initial))))) = 75"
  by code_simp

subsection \<open>A second stop\<close>






subsection \<open>Eligibility\<close>

lemma eligible_iff:
  "eligible v tgt =
     (isTypingContext tgt \<or> isTypingContext (activeElement v) \<or> isGoogleDocsActive v)"
  by (auto simp: eligible_def Let_def)

lemma single_char_not_ignored: "length k = 1 \<Longrightarrow> k \<notin> set IGNORED_KEYS"
  by (auto simp: IGNORED_KEYS_def)

lemma single_char_not_deletion: "length k = 1 \<Longrightarrow> k \<noteq> ''Backspace'' \<and> k \<noteq> ''Delete''"
  by auto

lemma handleKeyDown_counts_iff:
  assumes "isActive s" and "\<not> repeat e" and "length (key e) = 1" and "\<not> isShortcut e"
  shows "(totalChars (handleKeyDown v now e s) = totalChars s + 1) = eligible v (target e)"
  using assms single_char_not_ignored [of "key e"] single_char_not_deletion [of "key e"]
  by (simp add: handleKeyDown_def resetIdleTimer_def Let_def)

lemma handlePaste_counts_iff:
  assumes "isActive s" and "clipboardData e = Some clip" and "clip \<noteq> []"
  shows "(pastedChars (handlePaste v now e s) = pastedChars s + length clip)
           = eligible v (target e)"
  using assms by (simp add: handlePaste_def resetIdleTimer_def Let_def)

lemma isTypingContext_exact:
  "isTypingContext n = (isTypingContext_spec n \<and> \<not> disallowedInput n)"
  by (cases n) (auto simp: isTypingContext_spec_def disallowedInput_def Let_def)

lemma pageUnfocused_gdocs: "\<not> isGoogleDocsActive pageUnfocused"
  by (simp add: isGoogleDocsActive_def pageUnfocused_def page_def)

lemma bodyEl_not_typing: "\<not> isTypingContext bodyEl"
  by (simp add: bodyEl_def)

subsection \<open>The three kinds of input\<close>

lemma typed_keyA: "typed page keyA"
  by (simp add: typed_def keyA_def eligible_textArea IGNORED_KEYS_def isShortcut_def)

lemma deleted_keyBackspace: "deleted page keyBackspace"
  by (simp add: deleted_def keyBackspace_def eligible_textArea isShortcut_def)

lemma pasted_pasteHello: "pasted page pasteHello"
  by (simp add: pasted_def pasteHello_def eligible_textArea)

lemma deletion_not_ignored: "''Backspace'' \<notin> set IGNORED_KEYS \<and> ''Delete'' \<notin> set IGNORED_KEYS"
  by (simp add: IGNORED_KEYS_def)

lemma handleKeyDown_typed:
  assumes "isActive s" and "typed v e"
  shows "handleKeyDown v now e s =
           (if \<not> truthy (startTime s) then
              s\<lparr> startTime := Some now, burstStart := Some now,
                 totalChars := totalChars s + 1,
                 idleTimer := Some (now + IDLE_THRESHOLD_MS) \<rparr>
            else if burstStart s = None then
              s\<lparr> burstStart := Some now, totalChars := totalChars s + 1,
                 idleTimer := Some (now + IDLE_THRESHOLD_MS) \<rparr>
            else s\<lparr> totalChars := totalChars s + 1,
                    idleTimer := Some (now + IDLE_THRESHOLD_MS) \<rparr>)"
  using assms by (simp add: handleKeyDown_def typed_def resetIdleTimer_def Let_def)

lemma handleKeyDown_deleted:
  assumes "isActive s" and "deleted v e"
  shows "handleKeyDown v now e s =
           s\<lparr> backspaces := backspaces s + 1, idleTimer := Some (now + IDLE_THRESHOLD_MS) \<rparr>"
  using assms deletion_not_ignored
  by (auto simp: handleKeyDown_def deleted_def resetIdleTimer_def)

lemma handlePaste_pasted:
  assumes "isActive s" and "pasted v p"
  shows "handlePaste v now p s =
           s\<lparr> pastedChars := pastedChars s + length (the (clipboardData p)),
              idleTimer := Some (now + IDLE_THRESHOLD_MS) \<rparr>"
  using assms by (auto simp: handlePaste_def pasted_def resetIdleTimer_def Let_def)

subsection \<open>Reachable states\<close>

text \<open>Every state the script can reach satisfies \<open>run_inv\<close>, the clock never reading 0.\<close>

lemma run_inv_initial: "run_inv initial"
  by (simp add: run_inv_def initial_def)

lemma run_inv_handleKeyDown:
  "now \<noteq> 0 \<Longrightarrow> run_inv s \<Longrightarrow> run_inv (handleKeyDown v now e s)"
  by (simp add: run_inv_def handleKeyDown_def resetIdleTimer_def Let_def truthy_def)

lemma run_inv_handlePaste: "run_inv s \<Longrightarrow> run_inv (handlePaste v now e s)"
  by (simp add: run_inv_def handlePaste_def resetIdleTimer_def Let_def)

lemma run_inv_getStats: "run_inv s \<Longrightarrow> run_inv (snd (getStats now s))"
  by (simp add: run_inv_def getStats_frame)

lemma run_inv_dispatch:
  assumes "now \<noteq> 0" and "run_inv s"
  shows "run_inv (dispatch v now ev s)"
proof (cases ev)
  case (KeyDown e)
  with assms show ?thesis by (simp add: dispatch_def run_inv_handleKeyDown)
next
  case (Paste e)
  with assms show ?thesis by (simp add: dispatch_def run_inv_handlePaste)
next
  case IdleTimeout
  with assms show ?thesis
    by (simp add: dispatch_def run_inv_def onIdle_frame split: option.splits)
next
  case BroadcastTick
  with assms show ?thesis by (simp add: dispatch_def run_inv_getStats)
next
  case (Message a)
  with assms show ?thesis
    by (cases a)
      (simp_all add: dispatch_def run_inv_getStats start_state stop_eq Let_def
         run_inv_def getStats_frame onIdle_frame initial_def)
qed

lemma run_inv_exec:
  "list_all (\<lambda>(v, t, ev). t \<noteq> 0) tr \<Longrightarrow> run_inv s \<Longrightarrow> run_inv (exec tr s)"
  by (induction tr arbitrary: s) (auto simp: run_inv_dispatch)

subsection \<open>Bursts and the idle timeout\<close>

lemma exec_append: "exec (tr @ tr') s = exec tr' (exec tr s)"
  by (induction tr arbitrary: s) auto

lemma burst_Nil: "burst v [] = []"
  by (simp add: burst_def)

lemma burst_Cons:
  "burst v ((t, e) # ks) = (v, t, IdleTimeout) # (v, t, KeyDown e) # burst v ks"
  by (simp add: burst_def)

lemma timeout_not_due:
  "idleTimer s = Some d \<Longrightarrow> t < d \<Longrightarrow> dispatch v t IdleTimeout s = s"
  by (simp add: dispatch_def)

lemma timeout_none: "idleTimer s = None \<Longrightarrow> dispatch v t IdleTimeout s = s"
  by (simp add: dispatch_def)

lemma timeout_due:
  "idleTimer s = Some d \<Longrightarrow> d \<le> t \<Longrightarrow> dispatch v t IdleTimeout s = onIdle t s"
  by (simp add: dispatch_def)

text \<open>A keystroke inside a burst keeps the burst and moves the idle timeout.\<close>

lemma key_in_burst:
  assumes "in_burst b acc l s" and "typed v e" and "t - l < IDLE_THRESHOLD_MS"
  shows "in_burst b acc t (dispatch v t (KeyDown e) (dispatch v t IdleTimeout s))"
proof -
  from assms(1) have timer: "idleTimer s = Some (l + IDLE_THRESHOLD_MS)"
    and active: "isActive s"
    by (simp_all add: in_burst_def)
  from assms(3) have "t < l + IDLE_THRESHOLD_MS"
    by simp
  with timer have "dispatch v t IdleTimeout s = s"
    by (rule timeout_not_due)
  moreover have "in_burst b acc t (handleKeyDown v t e s)"
    using assms(1) by (simp add: handleKeyDown_typed [OF active assms(2)] in_burst_def)
  ultimately show ?thesis
    by (simp add: dispatch_def)
qed

text \<open>The first keystroke of a run opens the first burst.\<close>

lemma key_first:
  assumes "typed v e" and "t \<noteq> 0"
  shows "in_burst t 0 t
           (dispatch v t (KeyDown e) (dispatch v t IdleTimeout (snd (start t0 s))))"
proof -
  let ?s0 = "snd (start t0 s)"
  have fresh: "isActive ?s0" "startTime ?s0 = None" "idleTimer ?s0 = None"
      "accumulatedActiveMs ?s0 = 0"
    by (simp_all add: start_state initial_def)
  have "dispatch v t IdleTimeout ?s0 = ?s0"
    using fresh(3) by (rule timeout_none)
  moreover have "in_burst t 0 t (handleKeyDown v t e ?s0)"
    using fresh assms(2)
    by (simp add: handleKeyDown_typed [OF fresh(1) assms(1)] in_burst_def truthy_def)
  ultimately show ?thesis
    by (simp add: dispatch_def)
qed

text \<open>A keystroke in a paused run opens a new burst; the accumulated time stays.\<close>

lemma key_paused:
  assumes "paused acc s" and "typed v e"
  shows "in_burst t acc t (dispatch v t (KeyDown e) (dispatch v t IdleTimeout s))"
proof -
  from assms(1) have timer: "idleTimer s = None" and active: "isActive s"
    by (simp_all add: paused_def)
  have "dispatch v t IdleTimeout s = s"
    using timer by (rule timeout_none)
  moreover have "in_burst t acc t (handleKeyDown v t e s)"
    using assms(1) by (simp add: handleKeyDown_typed [OF active assms(2)] in_burst_def paused_def)
  ultimately show ?thesis
    by (simp add: dispatch_def)
qed

text \<open>The idle timeout closes the burst at the time it fires.\<close>

lemma timeout_closes_burst:
  assumes "in_burst b acc l s" and "l + IDLE_THRESHOLD_MS \<le> f"
  shows "paused (acc + (f - b)) (dispatch v f IdleTimeout s)"
proof -
  from assms(1) have "idleTimer s = Some (l + IDLE_THRESHOLD_MS)"
    by (simp add: in_burst_def)
  then have "dispatch v f IdleTimeout s = onIdle f s"
    using assms(2) by (rule timeout_due)
  then show ?thesis
    using assms(1) by (simp add: paused_def in_burst_def onIdle_frame getActiveTimeMs_def)
qed

lemma exec_burst_in_burst:
  assumes "in_burst b acc l s" and "list_all (\<lambda>(t, e). typed v e) ks"
    and "spaced (l # map fst ks)"
  shows "in_burst b acc (last (l # map fst ks)) (exec (burst v ks) s)"
  using assms
proof (induction ks arbitrary: s l)
  case Nil
  then show ?case by (simp add: burst_Nil)
next
  case (Cons k ks)
  obtain t e where k: "k = (t, e)"
    by (cases k) auto
  from Cons.prems k have typed: "typed v e" and rest: "list_all (\<lambda>(t, e). typed v e) ks"
    and near: "t - l < IDLE_THRESHOLD_MS" and spaced: "spaced (t # map fst ks)"
    by simp_all
  let ?s1 = "dispatch v t (KeyDown e) (dispatch v t IdleTimeout s)"
  have "in_burst b acc t ?s1"
    using Cons.prems(1) typed near by (rule key_in_burst)
  then have "in_burst b acc (last (t # map fst ks)) (exec (burst v ks) ?s1)"
    using rest spaced by (rule Cons.IH)
  then show ?case
    by (simp add: k burst_Cons)
qed

text \<open>A whole burst typed into a fresh run, and a whole burst typed into a paused run.\<close>

lemma exec_first_burst:
  assumes "ks \<noteq> []" and "list_all (\<lambda>(t, e). typed v e) ks" and "spaced (map fst ks)"
    and "fst (hd ks) \<noteq> 0"
  shows "in_burst (fst (hd ks)) 0 (fst (last ks)) (exec (burst v ks) (snd (start t0 s)))"
proof -
  from assms(1) obtain t e rest where ks: "ks = (t, e) # rest"
    by (cases ks) auto
  let ?s1 = "dispatch v t (KeyDown e) (dispatch v t IdleTimeout (snd (start t0 s)))"
  from assms ks have "typed v e" and "t \<noteq> 0"
    by simp_all
  then have "in_burst t 0 t ?s1"
    by (rule key_first)
  moreover from assms ks have "list_all (\<lambda>(t, e). typed v e) rest"
    and "spaced (t # map fst rest)"
    by simp_all
  ultimately have "in_burst t 0 (last (t # map fst rest)) (exec (burst v rest) ?s1)"
    by (rule exec_burst_in_burst)
  moreover have "last (t # map fst rest) = fst (last ks)"
    using ks by (simp add: last_map)
  ultimately show ?thesis
    by (simp add: ks burst_Cons)
qed

lemma exec_next_burst:
  assumes "paused acc s" and "ks \<noteq> []" and "list_all (\<lambda>(t, e). typed v e) ks"
    and "spaced (map fst ks)"
  shows "in_burst (fst (hd ks)) acc (fst (last ks)) (exec (burst v ks) s)"
proof -
  from assms(2) obtain t e rest where ks: "ks = (t, e) # rest"
    by (cases ks) auto
  let ?s1 = "dispatch v t (KeyDown e) (dispatch v t IdleTimeout s)"
  from assms ks have "typed v e"
    by simp
  with assms(1) have "in_burst t acc t ?s1"
    by (rule key_paused)
  moreover from assms ks have "list_all (\<lambda>(t, e). typed v e) rest"
    and "spaced (t # map fst rest)"
    by simp_all
  ultimately have "in_burst t acc (last (t # map fst rest)) (exec (burst v rest) ?s1)"
    by (rule exec_burst_in_burst)
  moreover have "last (t # map fst rest) = fst (last ks)"
    using ks by (simp add: last_map)
  ultimately show ?thesis
    by (simp add: ks burst_Cons)
qed

lemma in_burst_active_time:
  assumes "in_burst b acc l s" and "q < l + IDLE_THRESHOLD_MS"
  shows "getActiveTimeMs q (dispatch v q IdleTimeout s) = acc + (q - b)"
proof -
  from assms have "dispatch v q IdleTimeout s = s"
    by (simp add: in_burst_def timeout_not_due)
  then show ?thesis
    using assms(1) by (simp add: getActiveTimeMs_def in_burst_def)
qed

lemma bursts_typed:
  "list_all (\<lambda>(t, e). typed page e) burstOne" "list_all (\<lambda>(t, e). typed page e) burstTwo"
  by (simp_all add: burstOne_def burstTwo_def typed_keyA)

lemma bursts_spaced: "spaced (map fst burstOne)" "spaced (map fst burstTwo)"
  by (simp_all add: burstOne_def burstTwo_def IDLE_THRESHOLD_MS_def)

section \<open>The classifier on nodes that are not elements\<close>

text \<open>
  C10. For an argument that is null, undefined, or a node that is not an element (the
  document, a text node), \<open>isTypingContext\<close> returns false: the first line of the
  function answers before any property of an element is read, so the classifier is total
  over arbitrary event targets.
\<close>

theorem isTypingContext_non_element:
  "isTypingContext Null = False \<and> isTypingContext Undefined = False
   \<and> isTypingContext (NonElement i) = False"
  by simp

section \<open>A paste without text\<close>

text \<open>
  C9. A paste event whose clipboard text is empty, or that carries no clipboard data,
  changes nothing, also on an eligible target during an active run: the pasted-character
  counter and every other counter keep their values and the idle timeout is not
  restarted.
\<close>

theorem handlePaste_empty_clipboard:
  "clipboardData e = None \<or> clipboardData e = Some [] \<Longrightarrow> handlePaste v now e s = s"
  by (auto simp: handlePaste_def)

theorem handlePaste_empty_clipboard_witness:
  "isActive oneKey \<and> eligible page (target pasteEmpty)
   \<and> clipboardData pasteEmpty = Some []
   \<and> handlePaste page 1200 pasteEmpty oneKey = oneKey"
  using handlePaste_empty_clipboard [of pasteEmpty page 1200 oneKey]
  by (simp add: pasteEmpty_def eligible_textArea oneKey_value)

section \<open>Starting over, stopping twice\<close>




section \<open>The bounded history\<close>

text \<open>
  C7. When a session is saved (the snapshot has a countable character and the read of the
  store succeeds), the list written back is the new session followed by the stored
  sessions, cut to ten entries: its head is the new session, its tail is the first nine
  stored sessions, unchanged and in their order, and it has at most ten entries. The new
  session's identifier is the current time, so a history that was newest first, with no
  identifier later than now, stays newest first.
\<close>

theorem saveSession_head_and_truncate:
  assumes "st_totalChars st \<noteq> 0" and "storageGet v = GetOk stored"
  shows "case saveSession v now st of
           Written se ws \<Rightarrow>
             ws = take 10 (se # (case stored of None \<Rightarrow> [] | Some l \<Rightarrow> l))
             \<and> hd ws = se
             \<and> tl ws = take 9 (case stored of None \<Rightarrow> [] | Some l \<Rightarrow> l)
             \<and> length ws \<le> 10
             \<and> sid se = now
             \<and> (newest_first (case stored of None \<Rightarrow> [] | Some l \<Rightarrow> l)
                  \<and> (\<forall>x \<in> set (case stored of None \<Rightarrow> [] | Some l \<Rightarrow> l). sid x \<le> now)
                \<longrightarrow> newest_first ws)
         | _ \<Rightarrow> False"
proof -
  define old where "old = (case stored of None \<Rightarrow> [] | Some l \<Rightarrow> l)"
  define se where "se = \<lparr> sid = now, timestamp = now,
               domain = (if hostname v = [] then ''unknown'' else hostname v),
               duration = activeTime st, avgWPM = wpm st, avgCPM = cpm st,
               se_totalChars = st_totalChars st, se_backspaces = st_backspaces st,
               se_pastedChars = st_pastedChars st \<rparr>"
  have trunc: "(if length (se # old) > 10 then take 10 (se # old) else se # old)
                 = take 10 (se # old)"
    by simp
  have saved: "saveSession v now st = Written se (take 10 (se # old))"
    using assms trunc by (simp add: saveSession_def Let_def old_def se_def)
  have shape: "take 10 (se # old) = se # take 9 old"
    by (simp add: take_Cons')
  have ordered: "newest_first (se # take 9 old)"
    if "newest_first old" and "\<forall>x \<in> set old. sid x \<le> now"
  proof -
    have "\<forall>y \<in> set (take 9 old). sid y \<le> sid se"
      using that(2) by (auto simp: se_def dest: in_set_takeD)
    then show ?thesis
      using that(1) by (simp add: newest_first_Cons newest_first_take)
  qed
  show ?thesis
    using ordered by (simp add: saved shape old_def [symmetric] se_def)
qed

theorem saveSession_head_and_truncate_witness:
  "st_totalChars (fst (getStats 4000 (exec typing25 initial))) \<noteq> 0
   \<and> storageGet pageWithHistory = GetOk (Some history12)
   \<and> length history12 = 12
   \<and> newest_first history12
   \<and> list_all (\<lambda>x. sid x \<le> 4000) history12
   \<and> (case saveSession pageWithHistory 4000 (fst (getStats 4000 (exec typing25 initial))) of
         Written se ws \<Rightarrow>
           sid se = 4000 \<and> hd ws = se \<and> tl ws = take 9 history12 \<and> length ws = 10
           \<and> newest_first ws
       | _ \<Rightarrow> False)"
proof -
  have typed_some: "st_totalChars (fst (getStats 4000 (exec typing25 initial))) \<noteq> 0"
    by (simp add: typing25_stats)
  have stored: "storageGet pageWithHistory = GetOk (Some history12)"
    by (simp add: pageWithHistory_def)
  have len: "length history12 = 12"
    by (simp add: history12_value)
  have sorted: "newest_first history12"
    by (simp add: history12_value newest_first_def oldSession_def)
  have older: "\<forall>x \<in> set history12. sid x \<le> 4000"
    by (simp add: history12_value oldSession_def)
  have older': "list_all (\<lambda>x. sid x \<le> 4000) history12"
    using older by (simp add: list_all_iff)
  show ?thesis
    using saveSession_head_and_truncate [OF typed_some stored, of 4000] sorted older
    by (simp add: typed_some stored len older' split: save_result.splits)
qed

section \<open>When a session is produced\<close>

text \<open>
  C5. The stop command produces a session if and only if the countable-character counter
  of the run is not zero: with a zero counter \<open>saveSession\<close> returns before it builds
  anything. The snapshot the command returns and hands to \<open>saveSession\<close> is the snapshot
  of a state in which active is false and the clock is finalized (no burst is open, no
  idle timeout is pending, the open burst's time is in the accumulated total), and a
  session that is produced carries the figures of that snapshot.
\<close>

theorem stop_session_iff_chars:
  "(fst (snd (stop v now s)) = Skipped) = (totalChars s = 0)
   \<and> (\<exists>fin. \<not> isActive fin \<and> burstStart fin = None \<and> idleTimer fin = None
         \<and> accumulatedActiveMs fin = getActiveTimeMs now s
         \<and> totalChars fin = totalChars s \<and> backspaces fin = backspaces s
         \<and> pastedChars fin = pastedChars s
         \<and> fst (stop v now s) = fst (getStats now fin)
         \<and> (case fst (snd (stop v now s)) of
               Skipped \<Rightarrow> True
             | Failed se \<Rightarrow> derived_from (fst (getStats now fin)) se
             | Written se ws \<Rightarrow> derived_from (fst (getStats now fin)) se \<and> hd ws = se))"
proof -
  define fin where
    "fin = (onIdle now (s\<lparr> isActive := False,
              stopTime := (if truthy (startTime s) then Some now else None) \<rparr>))
            \<lparr> broadcastTimer := False \<rparr>"
  have result: "stop v now s =
      (fst (getStats now fin), saveSession v now (fst (getStats now fin)),
       snd (getStats now fin))"
    by (simp add: stop_eq fin_def Let_def)
  have chars: "totalChars fin = totalChars s"
    by (simp add: fin_def onIdle_frame)
  have skipped: "(fst (snd (stop v now s)) = Skipped) = (totalChars s = 0)"
    by (simp add: result saveSession_Skipped getStats_counters chars)
  have clock: "\<not> isActive fin \<and> burstStart fin = None \<and> idleTimer fin = None
      \<and> accumulatedActiveMs fin = getActiveTimeMs now s"
    by (simp add: fin_def onIdle_frame getActiveTimeMs_def split: option.splits)
  have counters: "backspaces fin = backspaces s \<and> pastedChars fin = pastedChars s"
    by (simp add: fin_def onIdle_frame)
  have derived: "case fst (snd (stop v now s)) of
               Skipped \<Rightarrow> True
             | Failed se \<Rightarrow> derived_from (fst (getStats now fin)) se
             | Written se ws \<Rightarrow> derived_from (fst (getStats now fin)) se \<and> hd ws = se"
    using saveSession_derived [where v = v and now = now and st = "fst (getStats now fin)"] by (simp add: result)
  from skipped clock chars counters derived result show ?thesis
    by (intro conjI exI [of _ fin]) simp_all
qed

theorem stop_session_iff_chars_witness:
  "totalChars (exec typing25 initial) = 25
   \<and> fst (snd (stop page 4000 (exec typing25 initial))) \<noteq> Skipped
   \<and> totalChars (snd (start 500 initial)) = 0
   \<and> fst (snd (stop page 4000 (snd (start 500 initial)))) = Skipped"
proof -
  have some: "totalChars (exec typing25 initial) = 25"
    by (simp add: typing25_state)
  have none: "totalChars (snd (start 500 initial)) = 0"
    by (simp add: start_state initial_def)
  show ?thesis
    using stop_session_iff_chars [of page 4000 "exec typing25 initial"]
      stop_session_iff_chars [of page 4000 "snd (start 500 initial)"]
    by (simp add: some none)
qed

section \<open>Words and characters per minute\<close>

text \<open>
  C3. In every snapshot, with \<open>chars\<close> the countable-character counter and \<open>activeMin\<close>
  the active milliseconds divided by 60000: when \<open>activeMin\<close> is positive, which it is
  exactly when the active milliseconds are, the words per minute are
  \<open>round ((chars / 5) / activeMin)\<close> and the characters per minute are
  \<open>round (chars / activeMin)\<close>, and both are 0 otherwise; the divisions are those of the
  script, each rounded to binary64. Twenty-five countable characters over 0.05 active
  minutes (3000 ms) give 100 words per minute and 500 characters per minute: five words
  in a twentieth of a minute. Three characters over 1600 ms give 22 and 112: the exact
  quotients are 22.5 and 112.5, the binary64 quotients lie just below.
\<close>

theorem getStats_speeds:
  "wpm (fst (getStats now s)) =
     (if 0 < jsDiv (of_int (getActiveTimeMs now s)) 60000
      then round (jsDiv (jsDiv (of_nat (totalChars s)) 5)
                    (jsDiv (of_int (getActiveTimeMs now s)) 60000))
      else 0)
   \<and> cpm (fst (getStats now s)) =
     (if 0 < jsDiv (of_int (getActiveTimeMs now s)) 60000
      then round (jsDiv (of_nat (totalChars s)) (jsDiv (of_int (getActiveTimeMs now s)) 60000))
      else 0)
   \<and> (0 < jsDiv (of_int (getActiveTimeMs now s)) 60000) = (0 < getActiveTimeMs now s)
   \<and> (totalChars s = 25 \<and> getActiveTimeMs now s = 3000
        \<longrightarrow> wpm (fst (getStats now s)) = 100 \<and> cpm (fst (getStats now s)) = 500)
   \<and> (totalChars s = 3 \<and> getActiveTimeMs now s = 1600
        \<longrightarrow> wpm (fst (getStats now s)) = 22 \<and> cpm (fst (getStats now s)) = 112)"
proof -
  have scenario: "wpm (fst (getStats now s)) = 100 \<and> cpm (fst (getStats now s)) = 500"
    if "totalChars s = 25" and "getActiveTimeMs now s = 3000"
    using that speeds_25_3000
    by (simp add: getStats_wpm getStats_cpm activeMins_pos_iff del: of_nat_numeral of_int_numeral)
  have tie: "wpm (fst (getStats now s)) = 22 \<and> cpm (fst (getStats now s)) = 112"
    if "totalChars s = 3" and "getActiveTimeMs now s = 1600"
    using that speeds_3_1600
    by (simp add: getStats_wpm getStats_cpm activeMins_pos_iff del: of_nat_numeral of_int_numeral)
  from scenario tie show ?thesis
    by (simp add: getStats_wpm getStats_cpm activeMins_pos_iff)
qed

theorem getStats_speeds_witness:
  "totalChars (exec typing25 initial) = 25
   \<and> getActiveTimeMs 4000 (exec typing25 initial) = 3000
   \<and> wpm (fst (getStats 4000 (exec typing25 initial))) = 100
   \<and> cpm (fst (getStats 4000 (exec typing25 initial))) = 500
   \<and> totalChars threeKeys = 3
   \<and> getActiveTimeMs 2600 threeKeys = 1600
   \<and> wpm (fst (getStats 2600 threeKeys)) = 22
   \<and> cpm (fst (getStats 2600 threeKeys)) = 112"
proof -
  have chars: "totalChars (exec typing25 initial) = 25"
    by (simp add: typing25_state)
  have active: "getActiveTimeMs 4000 (exec typing25 initial) = 3000"
    by (simp add: typing25_state getActiveTimeMs_def)
  have chars3: "totalChars threeKeys = 3"
    by (simp add: threeKeys_value)
  have active3: "getActiveTimeMs 2600 threeKeys = 1600"
    by (simp add: threeKeys_value getActiveTimeMs_def)
  from getStats_speeds [of 4000 "exec typing25 initial"] chars active
  have scenario: "wpm (fst (getStats 4000 (exec typing25 initial))) = 100
      \<and> cpm (fst (getStats 4000 (exec typing25 initial))) = 500"
    by blast
  from getStats_speeds [of 2600 threeKeys] chars3 active3
  have tie: "wpm (fst (getStats 2600 threeKeys)) = 22 \<and> cpm (fst (getStats 2600 threeKeys)) = 112"
    by blast
  from chars active chars3 active3 scenario tie show ?thesis
    by blast
qed

theorem wpm_scenario_counterexample:
  "totalChars (exec typing25 initial) = 25
   \<and> getActiveTimeMs 4000 (exec typing25 initial) = 3000
   \<and> wpm (fst (getStats 4000 (exec typing25 initial))) = 100
   \<and> wpm (fst (getStats 4000 (exec typing25 initial))) \<noteq> 500"
proof -
  have chars: "totalChars (exec typing25 initial) = 25"
    by (simp add: typing25_state)
  have active: "getActiveTimeMs 4000 (exec typing25 initial) = 3000"
    by (simp add: typing25_state getActiveTimeMs_def)
  have speed: "wpm (fst (getStats 4000 (exec typing25 initial))) = 100"
    by (simp add: typing25_stats)
  from chars active speed show ?thesis
    by simp
qed

section \<open>The peak never decreases\<close>

text \<open>
  C4. Every snapshot (a query, a periodic broadcast, the final snapshot of stop) sets the
  peak to the maximum of the peak before and the current words per minute, and reports
  that value. No handler other than the start command lowers the peak, so along any
  sequence of events without a start command the peak never decreases; the start command
  sets it to zero.
\<close>

theorem peakWpm_never_decreases:
  "peakWpm (snd (getStats now s)) = max (peakWpm s) (wpm (fst (getStats now s)))
   \<and> st_peakWpm (fst (getStats now s)) = max (peakWpm s) (wpm (fst (getStats now s)))
   \<and> (list_all (\<lambda>(v, t, ev). ev \<noteq> Message Start) tr \<longrightarrow> peakWpm s \<le> peakWpm (exec tr s))
   \<and> peakWpm (snd (start now s)) = 0"
proof -
  have snapshot: "peakWpm (snd (getStats now s)) = max (peakWpm s) (wpm (fst (getStats now s)))"
    and reported: "st_peakWpm (fst (getStats now s)) = max (peakWpm s) (wpm (fst (getStats now s)))"
    by (rule getStats_peak)+
  have trace: "peakWpm s \<le> peakWpm (exec tr s)"
    if "list_all (\<lambda>(v, t, ev). ev \<noteq> Message Start) tr"
    using that by (rule exec_peak)
  have reset: "peakWpm (snd (start now s)) = 0"
    by (simp add: start_state initial_def)
  from snapshot reported trace reset show ?thesis
    by blast
qed

theorem peakWpm_never_decreases_witness:
  "list_all (\<lambda>(v, t, ev). ev \<noteq> Message Start) snapshots25
   \<and> peakWpm (snd (start 500 initial)) = 0
   \<and> peakWpm (snd (start 500 initial)) \<le> peakWpm (exec snapshots25 (snd (start 500 initial)))
   \<and> peakWpm (exec snapshots25 (snd (start 500 initial))) = 100
   \<and> wpm (fst (getStats 5000 (exec snapshots25 (snd (start 500 initial))))) = 75
   \<and> st_peakWpm (fst (getStats 5000 (exec snapshots25 (snd (start 500 initial))))) = 100"
  using peakWpm_never_decreases [of 500 initial snapshots25]
    peakWpm_never_decreases [of 5000 "exec snapshots25 (snd (start 500 initial))" "[]"]
    peakWpm_never_decreases [of 500 "snd (start 500 initial)" snapshots25]
  by (simp add: snapshots25_no_start snapshots25_peak snapshots25_wpm)

section \<open>Eligibility and the classifier\<close>

text \<open>
  C6. An event is eligible for counting if and only if \<open>isTypingContext\<close> accepts its
  direct target or the focused element, or \<open>isGoogleDocsActive\<close> holds; this is the test
  that decides whether a key of one character is counted and whether a paste with text is
  counted. \<open>isTypingContext\<close> is true exactly for text areas, for inputs whose type is in
  the allow-list, and, among the elements that are not inputs, for content-editable
  elements (or descendants of one) and elements with role textbox or combobox. An input
  whose type is outside the allow-list is rejected whatever its role or editability.
\<close>

theorem eligibility_and_classifier:
  "eligible v tgt =
     (isTypingContext tgt \<or> isTypingContext (activeElement v) \<or> isGoogleDocsActive v)
   \<and> (isActive s \<and> \<not> repeat e \<and> length (key e) = 1 \<and> \<not> isShortcut e \<longrightarrow>
        (totalChars (handleKeyDown v now e s) = totalChars s + 1)
          = (isTypingContext (target e) \<or> isTypingContext (activeElement v)
             \<or> isGoogleDocsActive v))
   \<and> (isActive s \<and> clipboardData p = Some clip \<and> clip \<noteq> [] \<longrightarrow>
        (pastedChars (handlePaste v now p s) = pastedChars s + length clip)
          = (isTypingContext (target p) \<or> isTypingContext (activeElement v)
             \<or> isGoogleDocsActive v))
   \<and> isTypingContext n = (isTypingContext_spec n \<and> \<not> disallowedInput n)"
  using handleKeyDown_counts_iff [of s e v now] handlePaste_counts_iff [of s p clip v now]
    isTypingContext_exact [of n]
  by (simp add: eligible_iff)

theorem eligibility_and_classifier_witness:
  "isActive oneKey \<and> \<not> repeat keyA \<and> length (key keyA) = 1 \<and> \<not> isShortcut keyA
   \<and> isTypingContext (target keyA)
   \<and> totalChars (handleKeyDown page 1200 keyA oneKey) = totalChars oneKey + 1
   \<and> \<not> isTypingContext (target keyOnBody)
   \<and> \<not> isTypingContext (activeElement pageUnfocused)
   \<and> \<not> isGoogleDocsActive pageUnfocused
   \<and> totalChars (handleKeyDown pageUnfocused 1200 keyOnBody oneKey) \<noteq> totalChars oneKey + 1
   \<and> clipboardData pasteHello = Some ''hello''
   \<and> pastedChars (handlePaste page 1200 pasteHello oneKey) = pastedChars oneKey + 5
   \<and> isTypingContext textArea \<and> disallowedInput checkboxTextbox"
proof -
  have keyA_facts: "\<not> repeat keyA \<and> length (key keyA) = 1 \<and> \<not> isShortcut keyA
      \<and> isTypingContext (target keyA)"
    by (simp add: keyA_def isShortcut_def textArea_def)
  have body_facts: "\<not> repeat keyOnBody \<and> length (key keyOnBody) = 1 \<and> \<not> isShortcut keyOnBody
      \<and> \<not> isTypingContext (target keyOnBody)
      \<and> \<not> isTypingContext (activeElement pageUnfocused)"
    by (simp add: keyOnBody_def keyA_def isShortcut_def bodyEl_not_typing pageUnfocused_def)
  have paste_facts: "clipboardData pasteHello = Some ''hello''
      \<and> isTypingContext (target pasteHello)"
    by (simp add: pasteHello_def textArea_def)
  have active: "isActive oneKey"
    by (simp add: oneKey_value)
  have nodes: "isTypingContext_spec textArea \<and> \<not> disallowedInput textArea
      \<and> disallowedInput checkboxTextbox"
    by (simp add: isTypingContext_spec_def disallowedInput_def textArea_def
          checkboxTextbox_def) code_simp
  show ?thesis
    using eligibility_and_classifier
            [of page textArea oneKey keyA 1200 pasteHello "''hello''" textArea]
      eligibility_and_classifier
            [of pageUnfocused bodyEl oneKey keyOnBody 1200 pasteHello "''hello''" textArea]
      keyA_facts body_facts paste_facts active nodes pageUnfocused_gdocs
    by simp
qed

theorem classifier_counterexample:
  "isTypingContext_spec checkboxTextbox \<and> \<not> isTypingContext checkboxTextbox
   \<and> isTypingContext_spec checkboxInEditor \<and> \<not> isTypingContext checkboxInEditor"
proof -
  have "toLowerCase ''checkbox'' \<notin> set TYPING_INPUT_TYPES"
    by code_simp
  then show ?thesis
    by (simp add: isTypingContext_spec_def checkboxTextbox_def checkboxInEditor_def)
qed

section \<open>What counts as activity\<close>

text \<open>
  C2. In an active run, a countable keystroke opens a burst at the current time if none
  is open and leaves the start of an open burst unchanged; a deletion (Backspace or
  Delete) and a paste with text leave the burst as it is, open or not: they open none. All
  three restart the idle timeout, which becomes due one idle threshold after the current
  time.
\<close>

theorem activity_recording:
  assumes "isActive s" and "run_inv s"
  shows "(typed v e \<longrightarrow>
            burstStart (handleKeyDown v now e s)
              = (case burstStart s of None \<Rightarrow> Some now | Some b \<Rightarrow> Some b)
            \<and> idleTimer (handleKeyDown v now e s) = Some (now + IDLE_THRESHOLD_MS))
       \<and> (deleted v e \<longrightarrow>
            burstStart (handleKeyDown v now e s) = burstStart s
            \<and> idleTimer (handleKeyDown v now e s) = Some (now + IDLE_THRESHOLD_MS))
       \<and> (pasted v p \<longrightarrow>
            burstStart (handlePaste v now p s) = burstStart s
            \<and> idleTimer (handlePaste v now p s) = Some (now + IDLE_THRESHOLD_MS))"
proof (intro conjI impI)
  assume "typed v e"
  with assms show "burstStart (handleKeyDown v now e s)
      = (case burstStart s of None \<Rightarrow> Some now | Some b \<Rightarrow> Some b)"
    by (auto simp: handleKeyDown_typed run_inv_def split: option.splits)
next
  assume "typed v e"
  with assms show "idleTimer (handleKeyDown v now e s) = Some (now + IDLE_THRESHOLD_MS)"
    by (simp add: handleKeyDown_typed)
next
  assume "deleted v e"
  with assms show "burstStart (handleKeyDown v now e s) = burstStart s"
    by (simp add: handleKeyDown_deleted)
next
  assume "deleted v e"
  with assms show "idleTimer (handleKeyDown v now e s) = Some (now + IDLE_THRESHOLD_MS)"
    by (simp add: handleKeyDown_deleted)
next
  assume "pasted v p"
  with assms show "burstStart (handlePaste v now p s) = burstStart s"
    by (simp add: handlePaste_pasted)
next
  assume "pasted v p"
  with assms show "idleTimer (handlePaste v now p s) = Some (now + IDLE_THRESHOLD_MS)"
    by (simp add: handlePaste_pasted)
qed

theorem activity_recording_witness:
  "isActive oneKey \<and> run_inv oneKey \<and> burstStart oneKey = Some 1000
   \<and> typed page keyA \<and> deleted page keyBackspace \<and> pasted page pasteHello
   \<and> burstStart (handleKeyDown page 1200 keyA oneKey) = Some 1000
   \<and> idleTimer (handleKeyDown page 1200 keyA oneKey) = Some 3200
   \<and> burstStart (handleKeyDown page 1200 keyBackspace oneKey) = Some 1000
   \<and> idleTimer (handlePaste page 1200 pasteHello oneKey) = Some 3200
   \<and> isActive oneKeyIdle \<and> run_inv oneKeyIdle \<and> burstStart oneKeyIdle = None
   \<and> burstStart (handleKeyDown page 5000 keyA oneKeyIdle) = Some 5000"
proof -
  have open_burst: "isActive oneKey" "run_inv oneKey" "burstStart oneKey = Some 1000"
    by (simp_all add: oneKey_value run_inv_def truthy_def)
  have idle: "isActive oneKeyIdle" "run_inv oneKeyIdle" "burstStart oneKeyIdle = None"
    by (simp_all add: oneKeyIdle_value run_inv_def)
  show ?thesis
    using activity_recording [OF open_burst(1,2), of page keyA 1200 pasteHello]
      activity_recording [OF open_burst(1,2), of page keyBackspace 1200 pasteHello]
      activity_recording [OF idle(1,2), of page keyA 5000 pasteHello]
      open_burst idle typed_keyA deleted_keyBackspace pasted_pasteHello
    by (simp add: IDLE_THRESHOLD_MS_def)
qed

theorem activity_recording_counterexample:
  "isActive oneKeyIdle \<and> burstStart oneKeyIdle = None
   \<and> deleted page keyBackspace \<and> pasted page pasteHello
   \<and> burstStart (handleKeyDown page 5000 keyBackspace oneKeyIdle) = None
   \<and> burstStart (handlePaste page 5000 pasteHello oneKeyIdle) = None
   \<and> idleTimer (handleKeyDown page 5000 keyBackspace oneKeyIdle) = Some 7000"
proof -
  have idle: "isActive oneKeyIdle" "burstStart oneKeyIdle = None"
    by (simp_all add: oneKeyIdle_value)
  show ?thesis
    using idle deleted_keyBackspace pasted_pasteHello
    by (simp add: handleKeyDown_deleted handlePaste_pasted IDLE_THRESHOLD_MS_def)
qed

section \<open>Active time across an idle gap\<close>

text \<open>
  C1. A run with two bursts of countable keystrokes, each internally spaced less than the
  idle threshold apart: the idle timeout fires at a time \<open>f\<close>, at least one threshold
  (2000 ms) after the first burst's last keystroke, and the active time is read at a
  time \<open>q\<close> before the second burst's idle timeout is due. The value read is the first
  burst's duration (first to last keystroke), plus the time from the first burst's last
  keystroke to \<open>f\<close>, plus the time from the second burst's first keystroke to \<open>q\<close>. The
  clock runs until the timeout fires, so of the gap only the part after \<open>f\<close> is left out.
\<close>

theorem active_time_two_bursts:
  assumes "ks1 \<noteq> []" and "ks2 \<noteq> []"
    and "list_all (\<lambda>(t, e). typed v e) ks1" and "list_all (\<lambda>(t, e). typed v e) ks2"
    and "spaced (map fst ks1)" and "spaced (map fst ks2)"
    and "fst (hd ks1) \<noteq> 0"
    and "fst (last ks1) + IDLE_THRESHOLD_MS \<le> f"
    and "q < fst (last ks2) + IDLE_THRESHOLD_MS"
  shows "getActiveTimeMs q
           (exec (burst v ks1 @ (v, f, IdleTimeout) # burst v ks2 @ [(v, q, IdleTimeout)])
              (snd (start t0 s)))
         = (fst (last ks1) - fst (hd ks1)) + (f - fst (last ks1)) + (q - fst (hd ks2))"
proof -
  let ?s1 = "exec (burst v ks1) (snd (start t0 s))"
  let ?s2 = "dispatch v f IdleTimeout ?s1"
  let ?s3 = "exec (burst v ks2) ?s2"
  have "in_burst (fst (hd ks1)) 0 (fst (last ks1)) ?s1"
    using assms(1,3,5,7) by (rule exec_first_burst)
  then have "paused (0 + (f - fst (hd ks1))) ?s2"
    using assms(8) by (rule timeout_closes_burst)
  then have "in_burst (fst (hd ks2)) (0 + (f - fst (hd ks1))) (fst (last ks2)) ?s3"
    using assms(2,4,6) by (rule exec_next_burst)
  then have "getActiveTimeMs q (dispatch v q IdleTimeout ?s3)
      = 0 + (f - fst (hd ks1)) + (q - fst (hd ks2))"
    using assms(9) by (rule in_burst_active_time)
  then show ?thesis
    by (simp add: exec_append)
qed

theorem active_time_two_bursts_witness:
  "burstOne \<noteq> [] \<and> burstTwo \<noteq> []
   \<and> list_all (\<lambda>(t, e). typed page e) burstOne \<and> list_all (\<lambda>(t, e). typed page e) burstTwo
   \<and> spaced (map fst burstOne) \<and> spaced (map fst burstTwo)
   \<and> fst (hd burstOne) \<noteq> 0
   \<and> fst (last burstOne) + IDLE_THRESHOLD_MS \<le> 3500
   \<and> 6500 < fst (last burstTwo) + IDLE_THRESHOLD_MS
   \<and> getActiveTimeMs 6500
        (exec (burst page burstOne @ (page, 3500, IdleTimeout) # burst page burstTwo
                 @ [(page, 6500, IdleTimeout)])
           (snd (start 500 initial)))
      = 3000"
proof -
  have ends: "burstOne \<noteq> []" "burstTwo \<noteq> []" "fst (hd burstOne) \<noteq> 0"
      "fst (last burstOne) + IDLE_THRESHOLD_MS \<le> 3500"
      "6500 < fst (last burstTwo) + IDLE_THRESHOLD_MS"
    by (simp_all add: burstOne_def burstTwo_def IDLE_THRESHOLD_MS_def)
  have figures: "(fst (last burstOne) - fst (hd burstOne)) + (3500 - fst (last burstOne))
      + (6500 - fst (hd burstTwo)) = 3000"
    by (simp add: burstOne_def burstTwo_def)
  show ?thesis
    using active_time_two_bursts
            [OF ends(1,2) bursts_typed bursts_spaced ends(3,4,5), of 500 initial]
      ends bursts_typed bursts_spaced figures
    by simp
qed

theorem active_time_two_bursts_counterexample:
  "spaced (map fst burstOne) \<and> spaced (map fst burstTwo)
   \<and> fst (last burstOne) + 2000 \<le> fst (hd burstTwo)
   \<and> (fst (last burstOne) - fst (hd burstOne)) + (fst (last burstTwo) - fst (hd burstTwo))
       = 1000
   \<and> getActiveTimeMs (fst (last burstTwo)) (exec twoBursts initial) = 3000
   \<and> getActiveTimeMs (fst (last burstTwo)) (exec twoBursts initial)
       \<noteq> (fst (last burstOne) - fst (hd burstOne)) + (fst (last burstTwo) - fst (hd burstTwo))"
proof -
  have "getActiveTimeMs (fst (last burstTwo)) (exec twoBursts initial) = 3000"
    unfolding twoBursts_def burstOne_def burstTwo_def by code_simp
  then show ?thesis
    using bursts_spaced by (simp add: burstOne_def burstTwo_def)
qed

end
